theory Spec2Isabelle
  imports Complex_Main "HOL-Library.Char_ord" "HOL-Library.List_Lexorder" "HOL-Library.Sublist"
begin

section \<open>Common types\<close>

text \<open>
  Python floats are read as reals: only their order and their printed form are used, and
  the printed form (\<open>str\<close> of a float) is a parameter \<open>fmt\<close> of the functions that print.
  File contents are byte strings, a \<open>char\<close> being one byte; text outside ASCII is written
  as its UTF-8 bytes.
\<close>

type_synonym bytes = string

datatype py_error = TypeError | OverflowError | OSError | FileNotFoundError | UnicodeEncodeError

text \<open>
  A Python string whose content is free, the message of an alert, is the list of its code
  points; \<open>ascii\<close> gives an ASCII literal in that form.
\<close>

type_synonym ustring = "nat list"

definition ascii :: "string \<Rightarrow> ustring" where
  "ascii s = map of_char s"

definition line_feed :: nat where
  "line_feed = 10"

section \<open>services/sensor_reader.py\<close>

record sensor_cfg =
  ph_enabled :: bool
  temp_enabled :: bool
  read_interval_seconds :: real
  ph_range :: "real \<times> real"
  temp_range :: "real \<times> real"
  simulate :: bool

record config =
  sensors :: sensor_cfg
  neverot_server :: string

definition PH_I2C_ADDR :: nat where
  "PH_I2C_ADDR = 0x63"

definition TEMP_I2C_ADDR :: nat where
  "TEMP_I2C_ADDR = 0x66"

text \<open>
  An open I2C bus answers the read command sent to an address with the sixteen bytes of
  the block read, or the access raises (\<open>None\<close>). \<open>float_of\<close> is Python's \<open>float\<close> on
  a string, \<open>None\<close> where it raises ValueError. Every exception is caught inside
  \<open>read_i2c_sensor\<close>, which then returns None; so does indexing an empty answer.
\<close>

type_synonym bus = "nat \<Rightarrow> nat list option"

definition read_i2c_sensor :: "(string \<Rightarrow> real option) \<Rightarrow> bus \<Rightarrow> nat \<Rightarrow> real option" where
  "read_i2c_sensor float_of b addr =
     (case b addr of
        None \<Rightarrow> None
      | Some raw \<Rightarrow>
          (case raw of
             [] \<Rightarrow> None
           | st # rest \<Rightarrow>
               if st = 1 then float_of (map char_of (filter (\<lambda>x. x \<noteq> 0) rest))
               else None))"

text \<open>
  \<open>random.uniform(a, b)\<close> is \<open>a + (b - a) * random()\<close>; the draw \<open>random()\<close> is the
  argument \<open>rnd\<close>. \<open>round(x, 2)\<close> is read on the reals, rounding to the nearest hundredth.
\<close>

definition uniform :: "real \<Rightarrow> real \<Rightarrow> real \<Rightarrow> real" where
  "uniform a b rnd = a + (b - a) * rnd"

definition round2 :: "real \<Rightarrow> real" where
  "round2 x = real_of_int (round (x * 100)) / 100"

definition read_ph :: "(string \<Rightarrow> real option) \<Rightarrow> real \<Rightarrow> bus option \<Rightarrow> bool \<Rightarrow> real option" where
  "read_ph float_of rnd b sim =
     (if sim then Some (round2 (uniform 6.5 7.5 rnd))
      else case b of None \<Rightarrow> None | Some bs \<Rightarrow> read_i2c_sensor float_of bs PH_I2C_ADDR)"

definition read_temperature :: "(string \<Rightarrow> real option) \<Rightarrow> real \<Rightarrow> bus option \<Rightarrow> bool \<Rightarrow> real option" where
  "read_temperature float_of rnd b sim =
     (if sim then Some (round2 (uniform 22.0 26.0 rnd))
      else case b of None \<Rightarrow> None | Some bs \<Rightarrow> read_i2c_sensor float_of bs TEMP_I2C_ADDR)"

subsection \<open>check_alerts\<close>

definition warn_sign :: string where
  "warn_sign = [CHR 0xE2, CHR 0x9A, CHR 0xA0, CHR 0xEF, CHR 0xB8, CHR 0x8F]"

definition degree_sign :: string where
  "degree_sign = [CHR 0xC2, CHR 0xB0]"

definition ph_prefix :: string where
  "ph_prefix = warn_sign @ '' pH OUT OF RANGE: ''"

definition ph_message :: "(real \<Rightarrow> string) \<Rightarrow> real \<Rightarrow> real \<Rightarrow> real \<Rightarrow> string" where
  "ph_message fmt ph ph_min ph_max =
     ph_prefix @ fmt ph @ '' (expected '' @ fmt ph_min @ ''-'' @ fmt ph_max @ '')''"

definition temp_message :: "(real \<Rightarrow> string) \<Rightarrow> real \<Rightarrow> real \<Rightarrow> real \<Rightarrow> string" where
  "temp_message fmt temp temp_min temp_max =
     warn_sign @ '' Temperature OUT OF RANGE: '' @ fmt temp @ degree_sign @ ''C (expected ''
       @ fmt temp_min @ ''-'' @ fmt temp_max @ degree_sign @ ''C)''"

text \<open>
  The request sent to the server when there are alerts and the HTTP library is present:
  the URL and the list of alerts. Its failure is swallowed, so it is only recorded.
\<close>

record alert_result =
  alerts :: "string list"
  posted :: "(string \<times> string list) option"

definition check_alerts ::
  "(real \<Rightarrow> string) \<Rightarrow> bool \<Rightarrow> real option \<Rightarrow> real option \<Rightarrow> config \<Rightarrow> alert_result" where
  "check_alerts fmt has_requests ph temp cfg =
     (let sensor_cfg = sensors cfg;
          a1 = (case ph of
                  None \<Rightarrow> []
                | Some v \<Rightarrow>
                    (let ph_min = fst (ph_range sensor_cfg); ph_max = snd (ph_range sensor_cfg)
                     in if v < ph_min \<or> v > ph_max then [ph_message fmt v ph_min ph_max] else []));
          a2 = (case temp of
                  None \<Rightarrow> a1
                | Some v \<Rightarrow>
                    (let temp_min = fst (temp_range sensor_cfg); temp_max = snd (temp_range sensor_cfg)
                     in if v < temp_min \<or> v > temp_max
                        then a1 @ [temp_message fmt v temp_min temp_max] else a1))
      in \<lparr>alerts = a2,
          posted = (if a2 \<noteq> [] \<and> has_requests
                    then Some (''http://'' @ neverot_server cfg @ ''/api/alerts'', a2)
                    else None)\<rparr>)"

subsection \<open>write_csv\<close>

text \<open>
  The CSV file is the list of its records, each the list of its fields, as \<open>csv.writer\<close>
  writes them and \<open>csv.reader\<close> reads them back; an absent file is \<open>None\<close>. The fields
  written here (ISO timestamps, printed floats, empty strings) hold no delimiter, quote
  or line break. \<open>write_csv\<close> returns the file and the value of its local \<open>write_header\<close>.
\<close>

type_synonym csv_file = "string list list"

definition csv_header :: "string list" where
  "csv_header = [''timestamp'', ''ph'', ''temp_c'']"

definition data_row :: "(real \<Rightarrow> string) \<Rightarrow> string \<Rightarrow> real option \<Rightarrow> real option \<Rightarrow> string list" where
  "data_row fmt timestamp ph temp =
     [timestamp, (case ph of Some v \<Rightarrow> fmt v | None \<Rightarrow> ''''),
      (case temp of Some v \<Rightarrow> fmt v | None \<Rightarrow> '''')]"

definition write_csv ::
  "(real \<Rightarrow> string) \<Rightarrow> string \<Rightarrow> real option \<Rightarrow> real option \<Rightarrow> csv_file option
     \<Rightarrow> csv_file option \<times> bool" where
  "write_csv fmt timestamp ph temp f =
     (let write_header = (f = None);
          old = (case f of None \<Rightarrow> [] | Some rows \<Rightarrow> rows);
          with_header = (if write_header then old @ [csv_header] else old)
      in (Some (with_header @ [data_row fmt timestamp ph temp]), write_header))"

text \<open>
  A sequence of invocations, each with its timestamp and values, run one after the other
  on the file; the flags say which invocations wrote the header.
\<close>

type_synonym reading = "string \<times> real option \<times> real option"

fun write_all ::
  "(real \<Rightarrow> string) \<Rightarrow> reading list \<Rightarrow> csv_file option \<Rightarrow> csv_file option \<times> bool list" where
  "write_all fmt [] f = (f, [])"
| "write_all fmt ((ts, ph, temp) # rs) f =
     (let (f1, wrote) = write_csv fmt ts ph temp f;
          (f2, flags) = write_all fmt rs f1
      in (f2, wrote # flags))"

definition row_of :: "(real \<Rightarrow> string) \<Rightarrow> reading \<Rightarrow> string list" where
  "row_of fmt r = data_row fmt (fst r) (fst (snd r)) (snd (snd r))"

subsection \<open>main: startup and one iteration\<close>

text \<open>
  \<open>has_i2c\<close> is the module's \<open>HAS_I2C\<close> (the import of the I2C library succeeded),
  \<open>opened\<close> what opening the bus gives, \<open>None\<close> where it raises. The result is the pair
  of \<open>bus\<close> and \<open>simulate\<close> that the loop then uses, unchanged, in every iteration.
\<close>

definition sensor_startup :: "bool \<Rightarrow> sensor_cfg \<Rightarrow> bus option \<Rightarrow> bus option \<times> bool" where
  "sensor_startup has_i2c sensor_cfg opened =
     (let sim = simulate sensor_cfg
      in if has_i2c \<and> \<not> sim
         then (case opened of
                 Some b \<Rightarrow> (Some b, sim)
               | None \<Rightarrow> (None, if \<not> sim then True else sim))
         else (None, sim))"

record sensor_step =
  step_ph :: "real option"
  step_temp :: "real option"
  step_file :: "csv_file option"
  step_alerts :: alert_result

definition sensor_iteration ::
  "(real \<Rightarrow> string) \<Rightarrow> (string \<Rightarrow> real option) \<Rightarrow> bool \<Rightarrow> config \<Rightarrow> bus option \<times> bool
     \<Rightarrow> string \<Rightarrow> real \<Rightarrow> real \<Rightarrow> csv_file option \<Rightarrow> sensor_step" where
  "sensor_iteration fmt float_of has_requests cfg st ts rnd1 rnd2 f =
     (let sensor_cfg = sensors cfg;
          ph = (if ph_enabled sensor_cfg then read_ph float_of rnd1 (fst st) (snd st) else None);
          temp = (if temp_enabled sensor_cfg then read_temperature float_of rnd2 (fst st) (snd st)
                  else None)
      in \<lparr>step_ph = ph, step_temp = temp,
          step_file = fst (write_csv fmt ts ph temp f),
          step_alerts = check_alerts fmt has_requests ph temp cfg\<rparr>)"

section \<open>services/camera_monitor.py\<close>

text \<open>
  The camera directory is the list of its files in the order the directory is listed,
  each with its name, modification time and contents; names are unique in a directory.
  A path is the file's name, the directory part being the same for all.
\<close>

record file_entry =
  mtime :: real
  content :: bytes

type_synonym directory = "(string \<times> file_entry) list"

text \<open>
  \<open>glob.glob\<close> with the pattern \<open>*.jpg\<close>: the names that end in \<open>.jpg\<close>, those that
  start with a dot left out, in the order of the listing.
\<close>

definition matches_jpg :: "string \<Rightarrow> bool" where
  "matches_jpg name = (case name of [] \<Rightarrow> False | c # _ \<Rightarrow> c \<noteq> CHR ''.'' \<and> suffix ''.jpg'' name)"

definition glob_jpg :: "directory \<Rightarrow> string list" where
  "glob_jpg d = filter matches_jpg (map fst d)"

definition remove :: "string \<Rightarrow> directory \<Rightarrow> directory" where
  "remove path d = filter (\<lambda>x. fst x \<noteq> path) d"

text \<open>
  The loop of \<open>cleanup_old_images\<close> over the paths found: the directory, the log and the
  exception that ended the loop, if any (\<open>os.path.getmtime\<close> of a path that is no longer
  there).
\<close>

fun sweep :: "real \<Rightarrow> string list \<Rightarrow> directory \<Rightarrow> string list
    \<Rightarrow> directory \<times> string list \<times> py_error option" where
  "sweep cutoff [] d lg = (d, lg, None)"
| "sweep cutoff (path # paths) d lg =
     (case map_of d path of
        None \<Rightarrow> (d, lg, Some FileNotFoundError)
      | Some e \<Rightarrow>
          if mtime e < cutoff
          then sweep cutoff paths (remove path d) (lg @ [''Cleaned up old image: '' @ path])
          else sweep cutoff paths d lg)"

definition cleanup_old_images :: "real \<Rightarrow> real \<Rightarrow> directory
    \<Rightarrow> directory \<times> string list \<times> py_error option" where
  "cleanup_old_images keep_hours now d =
     (let cutoff = now - keep_hours * 3600 in sweep cutoff (glob_jpg d) d [])"

text \<open>
  What the camera at a device index does in one capture: whether it opens, what
  \<open>read\<close> returns, and the JPEG that \<open>imencode\<close> gives (\<open>None\<close> for no success).
\<close>

record camera =
  is_opened :: bool
  read_ret :: bool
  frame_present :: bool
  imencode :: "bytes option"




record camera_env =
  has_cv2 :: bool
  has_requests :: bool
  device_index :: "string \<Rightarrow> int option"
  cams :: "int \<Rightarrow> camera"
  writable :: bool
  stamp :: string
  save_time :: real
  sweep_time :: real

record camera_cfg =
  device :: string
  interval_seconds :: real
  keep_hours :: real
  upload_to_server :: bool



section \<open>services/lab_bridge.py\<close>

datatype body =
    Text string
  | Json "(string \<times> string) list"
  | File bytes
  | JsonText "(string \<times> ustring) list"

datatype http_result =
    Response nat string body
  | Unhandled py_error

text \<open>
  A handler that returns gives a response with its status, MIME type and body; an
  exception that leaves the handler is the server's answer 500, kept as \<open>Unhandled\<close>.
\<close>

definition not_found :: "string \<Rightarrow> http_result" where
  "not_found msg = Response 404 ''application/json'' (Json [(''error'', msg)])"

definition get_latest_image_path :: "directory \<Rightarrow> string option" where
  "get_latest_image_path d =
     (let images = sort (glob_jpg d) in if images \<noteq> [] then Some (last images) else None)"

definition camera_latest :: "directory \<Rightarrow> http_result" where
  "camera_latest d =
     (case get_latest_image_path d of
        None \<Rightarrow> not_found ''No camera images found''
      | Some path \<Rightarrow>
          (case map_of d path of
             None \<Rightarrow> not_found ''No camera images found''
           | Some e \<Rightarrow>
               if path \<noteq> [] then Response 200 ''image/jpeg'' (File (content e))
               else not_found ''No camera images found''))"

subsection \<open>sensors_history\<close>

text \<open>
  A naive datetime is the number of microseconds since 0001-01-01T00:00:00, the least
  datetime; the greatest is the last microsecond of the year 9999. An aware one carries
  its offset as well. \<open>fromisoformat\<close> is a parameter, \<open>None\<close> where it raises ValueError.
\<close>

datatype datetime = Naive int | Aware int int

definition MAXORDINAL :: int where
  "MAXORDINAL = 3652059"

definition timedelta_hours :: "int \<Rightarrow> py_error + int" where
  "timedelta_hours h =
     (if \<bar>h div 24\<bar> > 999999999 then Inl OverflowError else Inr (h * 3600000000))"

definition datetime_sub :: "int \<Rightarrow> int \<Rightarrow> py_error + int" where
  "datetime_sub t delta =
     (let r = t - delta
      in if 0 \<le> r \<and> r < MAXORDINAL * 86400000000 then Inr r else Inl OverflowError)"

text \<open>
  \<open>csv.DictReader\<close>: the first record gives the field names; each later record that is
  not empty becomes a dictionary, a later field of the same name replacing an earlier
  one, and a field name with no value in a short record is given None. (The values beyond
  the field names go under the key None, which no string key reads.)
\<close>

type_synonym row_dict = "string \<rightharpoonup> string option"

definition dict_row :: "string list \<Rightarrow> string list \<Rightarrow> row_dict" where
  "dict_row fieldnames row =
     map_of (rev (zip fieldnames (map Some row)
                  @ map (\<lambda>k. (k, None)) (drop (length row) fieldnames)))"

definition DictReader :: "csv_file \<Rightarrow> row_dict list" where
  "DictReader rows =
     (case rows of
        [] \<Rightarrow> []
      | fieldnames # rest \<Rightarrow> map (dict_row fieldnames) (filter (\<lambda>r. r \<noteq> []) rest))"

text \<open>
  The loop over the reader. \<open>row["timestamp"]\<close> raises KeyError for a missing key and the
  row is skipped; \<open>fromisoformat(None)\<close> raises TypeError, as does comparing an aware
  datetime with the naive cutoff, and neither is caught.
\<close>

fun history_loop :: "(string \<Rightarrow> datetime option) \<Rightarrow> int \<Rightarrow> row_dict list \<Rightarrow> row_dict list
    \<Rightarrow> py_error + row_dict list" where
  "history_loop fromisoformat cutoff [] rows = Inr rows"
| "history_loop fromisoformat cutoff (row # rest) rows =
     (case row ''timestamp'' of
        None \<Rightarrow> history_loop fromisoformat cutoff rest rows
      | Some None \<Rightarrow> Inl TypeError
      | Some (Some s) \<Rightarrow>
          (case fromisoformat s of
             None \<Rightarrow> history_loop fromisoformat cutoff rest rows
           | Some (Aware t off) \<Rightarrow> Inl TypeError
           | Some (Naive ts) \<Rightarrow>
               if ts \<ge> cutoff then history_loop fromisoformat cutoff rest (rows @ [row])
               else history_loop fromisoformat cutoff rest rows))"

definition newline :: char where
  "newline = CHR 0x0A"

definition dict_get :: "row_dict \<Rightarrow> string \<Rightarrow> string" where
  "dict_get r k = (case r k of None \<Rightarrow> [] | Some None \<Rightarrow> ''None'' | Some (Some s) \<Rightarrow> s)"

definition history_line :: "row_dict \<Rightarrow> string" where
  "history_line r = dict_get r ''timestamp'' @ '','' @ dict_get r ''ph'' @ '','' @ dict_get r ''temp_c''"

fun join :: "string \<Rightarrow> string list \<Rightarrow> string" where
  "join sep [] = []"
| "join sep [l] = l"
| "join sep (l # ls) = l @ sep @ join sep ls"

definition header_only :: http_result where
  "header_only = Response 200 ''text/csv'' (Text (''timestamp,ph,temp_c'' @ [newline]))"

text \<open>
  \<open>hours_arg\<close> is the query parameter read as an integer, \<open>None\<close> when it is absent or
  not an integer; \<open>now\<close> is the clock.
\<close>

definition sensors_history ::
  "(string \<Rightarrow> datetime option) \<Rightarrow> int option \<Rightarrow> int \<Rightarrow> csv_file option \<Rightarrow> http_result" where
  "sensors_history fromisoformat hours_arg now f =
     (let hours = (case hours_arg of None \<Rightarrow> 24 | Some h \<Rightarrow> h)
      in case timedelta_hours hours of
           Inl e \<Rightarrow> Unhandled e
         | Inr delta \<Rightarrow>
             (case datetime_sub now delta of
                Inl e \<Rightarrow> Unhandled e
              | Inr cutoff \<Rightarrow>
                  (case f of
                     None \<Rightarrow> header_only
                   | Some recs \<Rightarrow>
                       (case history_loop fromisoformat cutoff (DictReader recs) [] of
                          Inl e \<Rightarrow> Unhandled e
                        | Inr rows \<Rightarrow>
                            if rows = [] then header_only
                            else Response 200 ''text/csv''
                                   (Text (join [newline] (''timestamp,ph,temp_c'' # map history_line rows)
                                          @ [newline]))))))"

subsection \<open>receive_alert\<close>

text \<open>
  The request's JSON is an object of text values, or absent (no JSON, or not valid);
  \<open>ts\<close> is the clock printed in ISO format; the alert log is its text, \<open>None\<close> when the
  file does not exist yet. The message and the log are Python strings, lists of code
  points. The log is opened for appending as a text file, which creates it, and the line
  is then written in the file's encoding: \<open>encodable\<close>, a parameter, says whether that
  encoding can encode a text, and a write of a text it cannot encode raises
  UnicodeEncodeError before anything reaches the file. The result is the response and
  the log after the call.
\<close>

definition receive_alert ::
  "(ustring \<Rightarrow> bool) \<Rightarrow> (string \<rightharpoonup> ustring) option \<Rightarrow> ustring \<Rightarrow> ustring option
     \<Rightarrow> http_result \<times> ustring option" where
  "receive_alert encodable json ts lg =
     (let data = (case json of None \<Rightarrow> Map.empty | Some d \<Rightarrow> d);
          message = (case data ''message'' of None \<Rightarrow> ascii ''Unknown alert'' | Some m \<Rightarrow> m);
          old = (case lg of None \<Rightarrow> [] | Some s \<Rightarrow> s);
          line = ts @ ascii '' | '' @ message @ [line_feed]
      in if encodable line
         then (Response 200 ''application/json''
                 (JsonText [(''status'', ascii ''received''), (''message'', message)]),
               Some (old @ line))
         else (Unhandled UnicodeEncodeError, Some old))"

text \<open>
  UTF-8, the encoding of a text file unless the locale says otherwise, encodes every code
  point but the surrogates, U+D800 to U+DFFF, which a JSON string can hold on their own.
\<close>

definition utf8_encodable :: "ustring \<Rightarrow> bool" where
  "utf8_encodable s = list_all (\<lambda>c. c < 0xD800 \<or> 0xDFFF < c) s"

text \<open>The lines of a text: the pieces ended by a line feed, and what is left after the last.\<close>

fun text_lines :: "ustring \<Rightarrow> ustring \<Rightarrow> ustring list" where
  "text_lines cur [] = (if cur = [] then [] else [cur])"
| "text_lines cur (c # cs) =
     (if c = line_feed then cur # text_lines [] cs else text_lines (cur @ [c]) cs)"

section \<open>Notions used in the statements\<close>


text \<open>
  A reading as the sensor loop logs it: the loop takes the clock, a naive datetime, and
  passes its ISO form to \<open>write_csv\<close>; \<open>isoformat\<close> is a parameter.
\<close>

type_synonym timed_reading = "int \<times> real option \<times> real option"

definition logged :: "(int \<Rightarrow> string) \<Rightarrow> timed_reading \<Rightarrow> reading" where
  "logged isoformat r = (isoformat (fst r), snd r)"

text \<open>A table: each of its lines followed by a line feed.\<close>

definition table :: "string list \<Rightarrow> string" where
  "table ls = concat (map (\<lambda>l. l @ [newline]) ls)"

definition temp_prefix :: string where
  "temp_prefix = warn_sign @ '' Temperature OUT OF RANGE: ''"

text \<open>
  A record of the reading log has a timestamp when it has a first field and
  \<open>fromisoformat\<close> reads that field; an aware datetime is one with an offset.
\<close>

definition has_timestamp :: "(string \<Rightarrow> datetime option) \<Rightarrow> string list \<Rightarrow> bool" where
  "has_timestamp fromisoformat r = (case r of [] \<Rightarrow> False | x # _ \<Rightarrow> fromisoformat x \<noteq> None)"

definition aware_timestamp :: "(string \<Rightarrow> datetime option) \<Rightarrow> string list \<Rightarrow> bool" where
  "aware_timestamp fromisoformat r =
     (case r of
        [] \<Rightarrow> False
      | x # _ \<Rightarrow> (case fromisoformat x of Some (Aware t off) \<Rightarrow> True | _ \<Rightarrow> False))"

subsection \<open>Concrete inputs\<close>

definition dir0 :: directory where
  "dir0 = [(''20260101_000000.jpg'', \<lparr>mtime = 0, content = ''A''\<rparr>),
           (''20260102_000000.jpg'', \<lparr>mtime = 100, content = ''B''\<rparr>),
           (''notes.txt'', \<lparr>mtime = 0, content = ''C''\<rparr>)]"



text \<open>
  The clock at 2026-01-01T00:00:00, one reading an hour before it and one two days before
  it, with the ISO forms of the two and the parser that reads them back.
\<close>

definition now0 :: int where
  "now0 = 63902822400000000"

definition readings0 :: "timed_reading list" where
  "readings0 = [(63902649600000000, Some 7, None), (63902818800000000, Some 7, None)]"

definition isoformat0 :: "int \<Rightarrow> string" where
  "isoformat0 t = (if t = 63902818800000000 then ''2025-12-31T23:00:00''
                   else if t = 63902649600000000 then ''2025-12-30T00:00:00'' else [])"

definition fromisoformat0 :: "string \<Rightarrow> datetime option" where
  "fromisoformat0 s = (if s = ''2025-12-31T23:00:00'' then Some (Naive 63902818800000000)
                       else if s = ''2025-12-30T00:00:00'' then Some (Naive 63902649600000000)
                       else None)"

definition fmt0 :: "real \<Rightarrow> string" where
  "fmt0 v = (if v = 7 then ''7.0'' else ''9.0'')"

text \<open>
  Records after the header: a reading inside the last day, one whose timestamp is not a
  date, a blank line, and one cut short in the middle of its timestamp.
\<close>

definition rows0 :: csv_file where
  "rows0 = [[''2025-12-31T23:00:00'', ''7.0'', ''''], [''yesterday'', ''7.1'', ''24.0''], [],
            [''2025-12-31T23:0'']]"

section \<open>The reading log's header\<close>

lemma write_all_existing:
  "write_all fmt rs (Some rows) = (Some (rows @ map (row_of fmt) rs), replicate (length rs) False)"
proof (induction rs arbitrary: rows)
  case Nil
  show ?case by simp
next
  case (Cons r rs)
  obtain ts ph temp where r: "r = (ts, ph, temp)"
    by (cases r) auto
  show ?case
    by (simp add: r write_csv_def row_of_def Cons.IH)
qed

lemma write_all_absent:
  "write_all fmt (r # rs) None =
     (Some (csv_header # map (row_of fmt) (r # rs)), True # replicate (length rs) False)"
proof -
  obtain ts ph temp where r: "r = (ts, ph, temp)"
    by (cases r) auto
  show ?thesis
    by (simp add: r write_csv_def row_of_def write_all_existing)
qed

text \<open>
  C3. An invocation of \<open>write_csv\<close> writes the header exactly when the file does not
  exist; a sequence of invocations that starts with no file leaves the header as the first
  record, followed by one data record per invocation in order, and only the first
  invocation wrote the header.
\<close>

theorem csv_header_written_once:
  "snd (write_csv fmt ts ph temp f) = (f = None)
   \<and> fst (write_csv fmt ts ph temp None) = Some [csv_header, data_row fmt ts ph temp]
   \<and> write_all fmt (r # rs) None =
       (Some (csv_header # map (row_of fmt) (r # rs)), True # replicate (length rs) False)
   \<and> length (filter id (snd (write_all fmt (r # rs) None))) = 1"
proof -
  have a: "snd (write_csv fmt ts ph temp f) = (f = None)"
    by (simp add: write_csv_def Let_def)
  have b: "fst (write_csv fmt ts ph temp None) = Some [csv_header, data_row fmt ts ph temp]"
    by (simp add: write_csv_def)
  have c: "write_all fmt (r # rs) None =
       (Some (csv_header # map (row_of fmt) (r # rs)), True # replicate (length rs) False)"
    by (rule write_all_absent)
  have d: "length (filter id (snd (write_all fmt (r # rs) None))) = 1"
    by (simp only: c snd_conv) simp
  from a b c d show ?thesis by blast
qed

section \<open>The sensor loop's data source\<close>

lemma sensor_fallback_on_bus_failure:
  "sensor_startup True (sc\<lparr>simulate := False\<rparr>) None = (None, True)
   \<and> read_ph float_of rnd None True = Some (round2 (uniform 6.5 7.5 rnd))
   \<and> read_temperature float_of rnd None True = Some (round2 (uniform 22.0 26.0 rnd))"
  by (simp add: sensor_startup_def read_ph_def read_temperature_def)

text \<open>
  C1. The claim asks for simulated readings whenever simulation is not requested and the
  hardware cannot be used, the I2C library being absent or the bus failing to open. When
  the bus fails to open the startup does switch to simulation
  (\<open>sensor_fallback_on_bus_failure\<close>). When the library is absent the startup leaves
  both the bus and the simulation flag unset, and every pass with the pH sensor enabled
  then reads no value at all, whatever the random draw: the code does not do what the
  claim and the module's own description say.
\<close>

theorem sensor_no_fallback_without_i2c_library:
  "sensor_startup False (sc\<lparr>simulate := False, ph_enabled := True\<rparr>) opened = (None, False)
   \<and> step_ph (sensor_iteration fmt float_of hr
        (cfg\<lparr>sensors := sc\<lparr>simulate := False, ph_enabled := True\<rparr>\<rparr>)
        (sensor_startup False (sc\<lparr>simulate := False, ph_enabled := True\<rparr>) opened)
        ts r1 r2 f) = None"
  by (simp add: sensor_startup_def sensor_iteration_def read_ph_def Let_def)

section \<open>The threshold check\<close>

lemma not_ph_prefix_temp: "\<not> prefix ph_prefix (temp_message fmt v lo hi)"
  by (simp add: ph_prefix_def temp_message_def warn_sign_def)

lemma ph_prefix_ph: "prefix ph_prefix (ph_message fmt v lo hi)"
  by (simp add: ph_message_def)

lemma not_temp_prefix_ph: "\<not> prefix temp_prefix (ph_message fmt v lo hi)"
  by (simp add: temp_prefix_def ph_message_def ph_prefix_def warn_sign_def)

lemma temp_prefix_temp: "prefix temp_prefix (temp_message fmt v lo hi)"
  by (simp add: temp_message_def temp_prefix_def)

lemma ph_alerts_of_check:
  "filter (prefix ph_prefix) (alerts (check_alerts fmt hr (Some v) temp cfg)) =
     (if v < fst (ph_range (sensors cfg)) \<or> v > snd (ph_range (sensors cfg))
      then [ph_message fmt v (fst (ph_range (sensors cfg))) (snd (ph_range (sensors cfg)))]
      else [])"
  by (cases temp) (auto simp: check_alerts_def Let_def not_ph_prefix_temp ph_prefix_ph)

lemma temp_alerts_of_check:
  "filter (prefix temp_prefix) (alerts (check_alerts fmt hr ph (Some w) cfg)) =
     (if w < fst (temp_range (sensors cfg)) \<or> w > snd (temp_range (sensors cfg))
      then [temp_message fmt w (fst (temp_range (sensors cfg))) (snd (temp_range (sensors cfg)))]
      else [])"
  by (cases ph) (auto simp: check_alerts_def Let_def not_temp_prefix_ph temp_prefix_temp)

lemma ph_message_contains:
  "sublist (fmt v) (ph_message fmt v lo hi) \<and> sublist (fmt lo) (ph_message fmt v lo hi)
   \<and> sublist (fmt hi) (ph_message fmt v lo hi)"
  unfolding ph_message_def
  by (metis append.assoc sublist_appendI)

lemma temp_message_contains:
  "sublist (fmt v) (temp_message fmt v lo hi) \<and> sublist (fmt lo) (temp_message fmt v lo hi)
   \<and> sublist (fmt hi) (temp_message fmt v lo hi)"
  unfolding temp_message_def
  by (metis append.assoc sublist_appendI)

text \<open>
  C4. For a present pH value the alerts of the check hold the pH alert, once, exactly
  when the value is below the lower or above the upper bound of the configured range, and
  likewise for a present temperature; each message contains the printed value and both
  printed bounds. With the range 6 to 8 and no temperature, the value 9 gives exactly the
  one pH alert and the value 7 gives no alert.
\<close>

theorem check_alerts_threshold:
  "filter (prefix ph_prefix) (alerts (check_alerts fmt hr (Some v) temp cfg)) =
     (if v < fst (ph_range (sensors cfg)) \<or> v > snd (ph_range (sensors cfg))
      then [ph_message fmt v (fst (ph_range (sensors cfg))) (snd (ph_range (sensors cfg)))]
      else [])
   \<and> filter (prefix temp_prefix) (alerts (check_alerts fmt hr ph (Some w) cfg)) =
     (if w < fst (temp_range (sensors cfg)) \<or> w > snd (temp_range (sensors cfg))
      then [temp_message fmt w (fst (temp_range (sensors cfg))) (snd (temp_range (sensors cfg)))]
      else [])
   \<and> sublist (fmt v) (ph_message fmt v lo hi) \<and> sublist (fmt lo) (ph_message fmt v lo hi)
   \<and> sublist (fmt hi) (ph_message fmt v lo hi)
   \<and> sublist (fmt w) (temp_message fmt w lo hi) \<and> sublist (fmt lo) (temp_message fmt w lo hi)
   \<and> sublist (fmt hi) (temp_message fmt w lo hi)
   \<and> alerts (check_alerts fmt hr (Some 9) None (cfg\<lparr>sensors := sc\<lparr>ph_range := (6, 8)\<rparr>\<rparr>))
       = [ph_message fmt 9 6 8]
   \<and> alerts (check_alerts fmt hr (Some 7) None (cfg\<lparr>sensors := sc\<lparr>ph_range := (6, 8)\<rparr>\<rparr>)) = []"
proof -
  have nine: "alerts (check_alerts fmt hr (Some 9) None (cfg\<lparr>sensors := sc\<lparr>ph_range := (6, 8)\<rparr>\<rparr>))
       = [ph_message fmt 9 6 8]"
    by (simp add: check_alerts_def Let_def)
  have seven: "alerts (check_alerts fmt hr (Some 7) None (cfg\<lparr>sensors := sc\<lparr>ph_range := (6, 8)\<rparr>\<rparr>)) = []"
    by (simp add: check_alerts_def Let_def)
  from ph_alerts_of_check[of fmt hr v temp cfg] temp_alerts_of_check[of fmt hr ph w cfg]
    ph_message_contains[of fmt v lo hi] temp_message_contains[of fmt w lo hi] nine seven
  show ?thesis by blast
qed

section \<open>The retention sweep\<close>

lemma entry_unique:
  "distinct (map fst d) \<Longrightarrow> x \<in> set d \<Longrightarrow> fst x = p \<Longrightarrow> map_of d p = Some e \<Longrightarrow> snd x = e"
  by (cases x) (auto dest: eq_key_imp_eq_value)

lemma sweep_filter:
  "distinct (map fst d) \<Longrightarrow> distinct ps \<Longrightarrow> set ps \<subseteq> fst ` set d \<Longrightarrow>
     \<exists>lg'. sweep c ps d lg =
       (filter (\<lambda>x. \<not> (fst x \<in> set ps \<and> mtime (snd x) < c)) d, lg', None)"
proof (induction ps arbitrary: d lg)
  case Nil
  then show ?case by simp
next
  case (Cons p ps)
  from Cons.prems obtain e where e: "map_of d p = Some e"
    by (auto simp: map_of_eq_None_iff[symmetric] simp del: map_of_eq_None_iff)
  show ?case
  proof (cases "mtime e < c")
    case True
    let ?d1 = "remove p d"
    have d1: "distinct (map fst ?d1)"
      using Cons.prems(1) by (simp add: remove_def distinct_map_filter)
    have sub: "set ps \<subseteq> fst ` set ?d1"
    proof
      fix q assume q: "q \<in> set ps"
      with Cons.prems(2) have "q \<noteq> p" by auto
      moreover from q Cons.prems(3) obtain x where "x \<in> set d" "fst x = q" by auto
      ultimately show "q \<in> fst ` set ?d1" by (force simp: remove_def)
    qed
    from Cons.IH[OF d1 _ sub] Cons.prems(2)
    obtain lg' where s: "sweep c ps ?d1 (lg @ [''Cleaned up old image: '' @ p]) =
        (filter (\<lambda>x. \<not> (fst x \<in> set ps \<and> mtime (snd x) < c)) ?d1, lg', None)"
      by auto
    have eq: "filter (\<lambda>x. \<not> (fst x \<in> set ps \<and> mtime (snd x) < c)) ?d1
        = filter (\<lambda>x. \<not> (fst x \<in> set (p # ps) \<and> mtime (snd x) < c)) d"
      unfolding remove_def filter_filter
    proof (rule filter_cong[OF refl])
      fix x assume x: "x \<in> set d"
      show "(fst x \<noteq> p \<and> \<not> (fst x \<in> set ps \<and> mtime (snd x) < c))
          = (\<not> (fst x \<in> set (p # ps) \<and> mtime (snd x) < c))"
        using entry_unique[OF Cons.prems(1) x _ e] True by auto
    qed
    show ?thesis using e True s eq by simp
  next
    case False
    from Cons.IH[OF Cons.prems(1)] Cons.prems(2,3)
    obtain lg' where s: "sweep c ps d lg =
        (filter (\<lambda>x. \<not> (fst x \<in> set ps \<and> mtime (snd x) < c)) d, lg', None)"
      by auto
    have eq: "filter (\<lambda>x. \<not> (fst x \<in> set ps \<and> mtime (snd x) < c)) d
        = filter (\<lambda>x. \<not> (fst x \<in> set (p # ps) \<and> mtime (snd x) < c)) d"
    proof (rule filter_cong[OF refl])
      fix x assume x: "x \<in> set d"
      show "(\<not> (fst x \<in> set ps \<and> mtime (snd x) < c))
          = (\<not> (fst x \<in> set (p # ps) \<and> mtime (snd x) < c))"
        using entry_unique[OF Cons.prems(1) x _ e] False by auto
    qed
    show ?thesis using e False s eq by simp
  qed
qed

lemma cleanup_filter:
  assumes "distinct (map fst d)"
  shows "\<exists>lg. cleanup_old_images H now d =
     (filter (\<lambda>x. \<not> (matches_jpg (fst x) \<and> mtime (snd x) < now - H * 3600)) d, lg, None)"
proof -
  have g: "distinct (glob_jpg d)" "set (glob_jpg d) \<subseteq> fst ` set d"
    using assms by (auto simp: glob_jpg_def distinct_map_filter)
  from sweep_filter[OF assms g, of "now - H * 3600" "[]"]
  obtain lg where s: "sweep (now - H * 3600) (glob_jpg d) d [] =
       (filter (\<lambda>x. \<not> (fst x \<in> set (glob_jpg d) \<and> mtime (snd x) < now - H * 3600)) d, lg, None)"
    by auto
  have eq: "filter (\<lambda>x. \<not> (fst x \<in> set (glob_jpg d) \<and> mtime (snd x) < now - H * 3600)) d
     = filter (\<lambda>x. \<not> (matches_jpg (fst x) \<and> mtime (snd x) < now - H * 3600)) d"
    by (rule filter_cong[OF refl]) (auto simp: glob_jpg_def)
  show ?thesis using s eq by (simp add: cleanup_old_images_def)
qed

lemma saved_name_matches:
  "st \<noteq> [] \<Longrightarrow> hd st \<noteq> CHR ''.'' \<Longrightarrow> matches_jpg (st @ ''.jpg'')"
  by (cases st) (auto simp: matches_jpg_def suffix_def)

text \<open>
  C2. In a directory (unique names) one sweep with the retention window \<open>H\<close> at the
  time \<open>now\<close> ends without an exception and leaves exactly the files that do not both
  match \<open>*.jpg\<close> and have a modification time below \<open>now - H * 3600\<close>, in their order:
  a file matching \<open>*.jpg\<close> is removed if and only if its modification time is below the
  cutoff, and every other file stays. (A name the capture saves matches the pattern:
  \<open>saved_name_matches\<close>.)
\<close>

theorem cleanup_removes_exactly_old:
  assumes "distinct (map fst d)"
  shows "fst (cleanup_old_images H now d) =
           filter (\<lambda>x. \<not> (matches_jpg (fst x) \<and> mtime (snd x) < now - H * 3600)) d
     \<and> snd (snd (cleanup_old_images H now d)) = None
     \<and> (\<forall>x\<in>set d. matches_jpg (fst x) \<longrightarrow>
           (x \<notin> set (fst (cleanup_old_images H now d)) \<longleftrightarrow> mtime (snd x) < now - H * 3600))
     \<and> (\<forall>x\<in>set d. \<not> matches_jpg (fst x) \<longrightarrow> x \<in> set (fst (cleanup_old_images H now d)))
     \<and> set (fst (cleanup_old_images H now d)) \<subseteq> set d"
proof -
  from cleanup_filter[OF assms, of H now] obtain lg where
    c: "cleanup_old_images H now d =
     (filter (\<lambda>x. \<not> (matches_jpg (fst x) \<and> mtime (snd x) < now - H * 3600)) d, lg, None)"
    by blast
  show ?thesis unfolding c by auto
qed

theorem cleanup_removes_exactly_old_witness:
  "distinct (map fst dir0)
   \<and> fst (cleanup_old_images 1 3650 dir0) =
       [(''20260102_000000.jpg'', \<lparr>mtime = 100, content = ''B''\<rparr>),
        (''notes.txt'', \<lparr>mtime = 0, content = ''C''\<rparr>)]
   \<and> snd (snd (cleanup_old_images 1 3650 dir0)) = None"
proof -
  have d: "distinct (map fst dir0)"
    by (simp add: dir0_def)
  have f: "filter (\<lambda>x. \<not> (matches_jpg (fst x) \<and> mtime (snd x) < 3650 - 1 * 3600)) dir0 =
       [(''20260102_000000.jpg'', \<lparr>mtime = 100, content = ''B''\<rparr>),
        (''notes.txt'', \<lparr>mtime = 0, content = ''C''\<rparr>)]"
    by (simp add: dir0_def matches_jpg_def suffix_to_prefix)
  from cleanup_removes_exactly_old[OF d, of 1 3650] d f show ?thesis
    by simp
qed

section \<open>One pass of the camera loop\<close>








section \<open>The latest frame\<close>

lemma last_sort_Max: "xs \<noteq> [] \<Longrightarrow> last (sort xs) = Max (set xs)"
proof -
  assume ne: "xs \<noteq> []"
  have s: "sorted (sort xs)" "set (sort xs) = set xs" by simp_all
  from ne have ne': "sort xs \<noteq> []" by (metis s(2) set_empty)
  have "Max (set xs) = last (sort xs)"
  proof (rule Max_eqI)
    show "finite (set xs)" by simp
    show "last (sort xs) \<in> set xs" using last_in_set[OF ne'] s(2) by simp
    fix y assume "y \<in> set xs"
    then have "y \<in> set (sort xs)" by simp
    then obtain i where i: "i < length (sort xs)" "sort xs ! i = y"
      unfolding in_set_conv_nth by blast
    have "sort xs ! i \<le> sort xs ! (length (sort xs) - 1)"
      by (rule sorted_nth_mono[OF s(1)]) (use i in auto)
    then show "y \<le> last (sort xs)" using i ne' by (simp add: last_conv_nth)
  qed
  then show ?thesis by simp
qed

text \<open>
  C6. When the directory holds a file matching \<open>*.jpg\<close>, the query answers 200 with
  the contents of the file whose name is the greatest, in the lexicographic order of
  strings, among the names matching the pattern; when it holds none, the query answers
  404 with the JSON object that reports that no image was found.
\<close>

theorem camera_latest_greatest_or_404:
  "(glob_jpg d \<noteq> [] \<longrightarrow>
      (\<exists>e. (Max (set (glob_jpg d)), e) \<in> set d \<and> matches_jpg (Max (set (glob_jpg d)))
          \<and> map_of d (Max (set (glob_jpg d))) = Some e
          \<and> camera_latest d = Response 200 ''image/jpeg'' (File (content e))))
   \<and> (glob_jpg d = [] \<longrightarrow>
        camera_latest d = Response 404 ''application/json'' (Json [(''error'', ''No camera images found'')]))"
proof (intro conjI impI)
  assume ne: "glob_jpg d \<noteq> []"
  let ?m = "Max (set (glob_jpg d))"
  have p: "get_latest_image_path d = Some ?m"
    using ne by (simp add: get_latest_image_path_def Let_def last_sort_Max) (metis set_empty set_sort)
  have "?m \<in> set (glob_jpg d)" using ne by (intro Max_in) auto
  then have in_d: "?m \<in> fst ` set d" and mj: "matches_jpg ?m" by (auto simp: glob_jpg_def)
  then obtain e where e: "map_of d ?m = Some e"
    by (metis map_of_eq_None_iff not_Some_eq)
  from mj have "?m \<noteq> []" by (auto simp: matches_jpg_def)
  with p e have "camera_latest d = Response 200 ''image/jpeg'' (File (content e))"
    by (simp add: camera_latest_def)
  with e mj show "\<exists>e. (?m, e) \<in> set d \<and> matches_jpg ?m \<and> map_of d ?m = Some e
      \<and> camera_latest d = Response 200 ''image/jpeg'' (File (content e))"
    by (auto dest: map_of_SomeD)
next
  assume "glob_jpg d = []"
  then show "camera_latest d = Response 404 ''application/json'' (Json [(''error'', ''No camera images found'')])"
    by (simp add: camera_latest_def get_latest_image_path_def not_found_def)
qed

theorem camera_latest_greatest_or_404_witness:
  "glob_jpg dir0 \<noteq> []
   \<and> (\<exists>e. (Max (set (glob_jpg dir0)), e) \<in> set dir0 \<and> matches_jpg (Max (set (glob_jpg dir0)))
          \<and> map_of dir0 (Max (set (glob_jpg dir0))) = Some e
          \<and> camera_latest dir0 = Response 200 ''image/jpeg'' (File (content e)))
   \<and> camera_latest dir0 = Response 200 ''image/jpeg'' (File ''B'')
   \<and> glob_jpg [] = []
   \<and> camera_latest [] = Response 404 ''application/json'' (Json [(''error'', ''No camera images found'')])"
proof -
  have g: "glob_jpg dir0 = [''20260101_000000.jpg'', ''20260102_000000.jpg'']"
    by (simp add: glob_jpg_def dir0_def matches_jpg_def suffix_to_prefix)
  have ne: "glob_jpg dir0 \<noteq> []" by (simp add: g)
  have e: "glob_jpg [] = []" by (simp add: glob_jpg_def)
  have c: "camera_latest dir0 = Response 200 ''image/jpeg'' (File ''B'')"
    by (simp add: camera_latest_def get_latest_image_path_def g) (simp add: dir0_def)
  from camera_latest_greatest_or_404[of dir0] camera_latest_greatest_or_404[of "[]"] ne e c
  show ?thesis by blast
qed

text \<open>
  C9. The query reads the directory and writes nothing, and its answer depends only on
  which files the directory holds, not on the order in which the directory is listed:
  two listings of the same files give the same answer, byte for byte.
\<close>

theorem camera_latest_deterministic:
  assumes "distinct (map fst d1)" "distinct (map fst d2)" "set d1 = set d2"
  shows "camera_latest d1 = camera_latest d2"
proof -
  have m: "map_of d1 = map_of d2" using assms by (simp add: map_of_inject_set)
  have "sort (glob_jpg d1) = sort (glob_jpg d2)"
  proof (rule sorted_distinct_set_unique)
    show "distinct (sort (glob_jpg d1))" using assms(1) by (simp add: glob_jpg_def distinct_map_filter)
    show "distinct (sort (glob_jpg d2))" using assms(2) by (simp add: glob_jpg_def distinct_map_filter)
    show "set (sort (glob_jpg d1)) = set (sort (glob_jpg d2))" using assms(3) by (simp add: glob_jpg_def)
  qed simp_all
  then have p: "get_latest_image_path d1 = get_latest_image_path d2"
    by (simp add: get_latest_image_path_def)
  show ?thesis unfolding camera_latest_def m p ..
qed

theorem camera_latest_deterministic_witness:
  "distinct (map fst dir0) \<and> distinct (map fst (rev dir0)) \<and> set dir0 = set (rev dir0)
   \<and> camera_latest dir0 = camera_latest (rev dir0)"
proof -
  have a: "distinct (map fst dir0)" by (simp add: dir0_def)
  have b: "distinct (map fst (rev dir0))" by (simp add: dir0_def)
  have c: "set dir0 = set (rev dir0)" by simp
  from camera_latest_deterministic[OF a b c] a b c show ?thesis by blast
qed

section \<open>The reading history\<close>

lemma row_of_fields: "\<exists>a b. row_of fmt (ts, v) = [ts, a, b]"
  by (simp add: row_of_def data_row_def)

lemma dict_row_timestamp: "dict_row csv_header [ts, a, b] ''timestamp'' = Some (Some ts)"
  by (simp add: dict_row_def csv_header_def)

lemma history_line_logged: "history_line (dict_row csv_header [ts, a, b]) = join '','' [ts, a, b]"
  by (simp add: history_line_def dict_get_def dict_row_def csv_header_def)

lemma DictReader_logged:
  "DictReader (csv_header # map (row_of fmt) rs) = map (\<lambda>r. dict_row csv_header (row_of fmt r)) rs"
proof -
  have "filter (\<lambda>r. r \<noteq> []) (map (row_of fmt) rs) = map (row_of fmt) rs"
    by (induction rs) (auto simp: row_of_def data_row_def)
  then show ?thesis by (simp add: DictReader_def)
qed

lemma history_loop_logged:
  assumes "\<forall>r\<in>set rds. p (isof (fst r)) = Some (Naive (fst r))"
  shows "history_loop p c (map (\<lambda>r. dict_row csv_header (row_of fmt (logged isof r))) rds) rows =
     Inr (rows @ map (\<lambda>r. dict_row csv_header (row_of fmt (logged isof r)))
                   (filter (\<lambda>r. c \<le> fst r) rds))"
  using assms
proof (induction rds arbitrary: rows)
  case Nil
  show ?case by simp
next
  case (Cons r rds)
  obtain a b where ab: "row_of fmt (logged isof r) = [isof (fst r), a, b]"
    using row_of_fields[of fmt "isof (fst r)" "snd r"] by (auto simp: logged_def)
  from Cons.prems have p: "p (isof (fst r)) = Some (Naive (fst r))" by simp
  from Cons.prems have rest: "\<forall>r\<in>set rds. p (isof (fst r)) = Some (Naive (fst r))" by simp
  show ?case
    by (simp add: ab dict_row_timestamp p Cons.IH[OF rest])
qed

lemma join_table: "ls \<noteq> [] \<Longrightarrow> join [newline] ls @ [newline] = table ls"
  unfolding table_def
  by (induction "[newline]" ls rule: join.induct) auto

lemma history_loop_skips:
  "row ''timestamp'' = None \<or> (\<exists>s. row ''timestamp'' = Some (Some s) \<and> p s = None) \<Longrightarrow>
     history_loop p c (row # rest) rows = history_loop p c rest rows"
  by auto

text \<open>
  C5, as the code has it. Let the window (24 hours when the parameter is absent) be one
  that \<open>timedelta\<close> accepts and for which the clock less the window is a datetime; and
  let the log be what the sensor loop wrote, starting with no file, for a list of
  readings, each with the clock of its pass, which \<open>fromisoformat\<close> reads back from its
  ISO form. Then the query answers 200 with the table whose first line is
  \<open>timestamp,ph,temp_c\<close> and whose other lines are, in order, the logged rows of exactly
  the readings whose time is at or after the clock less the window. With no reading
  logged (no file) or none in the window this is the header alone.
\<close>

theorem sensors_history_window:
  assumes ok: "timedelta_hours (case hours_arg of None \<Rightarrow> 24 | Some h \<Rightarrow> h) = Inr delta"
              "datetime_sub now delta = Inr cutoff"
      and rt: "\<forall>r\<in>set rds. fromisoformat (isoformat (fst r)) = Some (Naive (fst r))"
  shows "cutoff = now - (case hours_arg of None \<Rightarrow> 24 | Some h \<Rightarrow> h) * 3600000000
     \<and> sensors_history fromisoformat hours_arg now
         (fst (write_all fmt (map (logged isoformat) rds) None)) =
       Response 200 ''text/csv''
         (Text (table (''timestamp,ph,temp_c''
                  # map (\<lambda>r. join '','' (row_of fmt (logged isoformat r)))
                      (filter (\<lambda>r. cutoff \<le> fst r) rds))))"
proof
  show "cutoff = now - (case hours_arg of None \<Rightarrow> 24 | Some h \<Rightarrow> h) * 3600000000"
    using ok by (auto simp: timedelta_hours_def datetime_sub_def Let_def split: if_splits)
next
  let ?f = "\<lambda>r. dict_row csv_header (row_of fmt (logged isoformat r))"
  let ?keep = "filter (\<lambda>r. cutoff \<le> fst r) rds"
  have line: "history_line (?f r) = join '','' (row_of fmt (logged isoformat r))" for r
  proof -
    obtain a b where "row_of fmt (logged isoformat r) = [isoformat (fst r), a, b]"
      using row_of_fields[of fmt "isoformat (fst r)" "snd r"] by (auto simp: logged_def)
    then show ?thesis by (simp only: history_line_logged)
  qed
  show "sensors_history fromisoformat hours_arg now
         (fst (write_all fmt (map (logged isoformat) rds) None)) =
       Response 200 ''text/csv''
         (Text (table (''timestamp,ph,temp_c''
                  # map (\<lambda>r. join '','' (row_of fmt (logged isoformat r))) ?keep)))"
  proof (cases rds)
    case Nil
    then show ?thesis using ok
      by (simp add: sensors_history_def header_only_def table_def)
  next
    case (Cons r rs)
    have fl: "fst (write_all fmt (map (logged isoformat) rds) None)
        = Some (csv_header # map (row_of fmt) (map (logged isoformat) rds))"
      unfolding Cons by (simp only: list.map write_all_absent fst_conv)
    have loop: "history_loop fromisoformat cutoff
        (DictReader (csv_header # map (row_of fmt) (map (logged isoformat) rds))) [] = Inr (map ?f ?keep)"
      using history_loop_logged[OF rt, of cutoff fmt "[]"]
      by (subst DictReader_logged) (simp add: comp_def)
    have body: "(if map ?f ?keep = [] then header_only
                 else Response 200 ''text/csv''
                    (Text (join [newline] (''timestamp,ph,temp_c'' # map history_line (map ?f ?keep)) @ [newline])))
       = Response 200 ''text/csv''
         (Text (table (''timestamp,ph,temp_c''
                  # map (\<lambda>r. join '','' (row_of fmt (logged isoformat r))) ?keep)))"
      by (simp add: join_table header_only_def line comp_def) (simp add: table_def)
    show ?thesis
      by (simp only: sensors_history_def Let_def ok fl sum.case option.case loop body)
  qed
qed

theorem sensors_history_window_witness:
  "timedelta_hours (case None of None \<Rightarrow> 24 | Some h \<Rightarrow> h) = Inr 86400000000
   \<and> datetime_sub now0 86400000000 = Inr 63902736000000000
   \<and> fromisoformat0 (isoformat0 63902649600000000) = Some (Naive 63902649600000000)
   \<and> fromisoformat0 (isoformat0 63902818800000000) = Some (Naive 63902818800000000)
   \<and> sensors_history fromisoformat0 None now0
         (fst (write_all fmt0 (map (logged isoformat0) readings0) None)) =
       Response 200 ''text/csv''
         (Text (''timestamp,ph,temp_c'' @ [newline] @ ''2025-12-31T23:00:00,7.0,'' @ [newline]))"
proof -
  have a: "timedelta_hours (case None of None \<Rightarrow> 24 | Some h \<Rightarrow> h) = Inr 86400000000"
    by (simp add: timedelta_hours_def)
  have b: "datetime_sub now0 86400000000 = Inr 63902736000000000"
    by (simp add: datetime_sub_def now0_def MAXORDINAL_def)
  have c: "\<forall>r\<in>set readings0. fromisoformat0 (isoformat0 (fst r)) = Some (Naive (fst r))"
    by (simp add: readings0_def fromisoformat0_def isoformat0_def)
  have t: "table (''timestamp,ph,temp_c''
                  # map (\<lambda>r. join '','' (row_of fmt0 (logged isoformat0 r)))
                      (filter (\<lambda>r. 63902736000000000 \<le> fst r) readings0))
         = ''timestamp,ph,temp_c'' @ [newline] @ ''2025-12-31T23:00:00,7.0,'' @ [newline]"
    by (simp add: table_def readings0_def row_of_def data_row_def logged_def isoformat0_def fmt0_def)
  have c1: "fromisoformat0 (isoformat0 63902649600000000) = Some (Naive 63902649600000000)"
    by (simp add: fromisoformat0_def isoformat0_def)
  have c2: "fromisoformat0 (isoformat0 63902818800000000) = Some (Naive 63902818800000000)"
    by (simp add: fromisoformat0_def isoformat0_def)
  from sensors_history_window[OF a b c, of fmt0] a b c1 c2 t show ?thesis
    by simp
qed

text \<open>
  C5 as stated fails for a window that reaches before the year 1: with the clock at
  2026-01-01T00:00:00 and a window of 20000000 hours the subtraction raises
  OverflowError, and the query ends with that exception instead of a table, whether or
  not there is a log.
\<close>

theorem sensors_history_overflow:
  "sensors_history fromisoformat0 (Some 20000000) now0 None = Unhandled OverflowError
   \<and> sensors_history fromisoformat0 (Some 20000000) now0
        (fst (write_all fmt0 (map (logged isoformat0) readings0) None)) = Unhandled OverflowError"
  by (simp add: sensors_history_def timedelta_hours_def datetime_sub_def MAXORDINAL_def now0_def)

lemma dict_row_header_first: "dict_row csv_header (x # xs) ''timestamp'' = Some (Some x)"
proof (cases xs)
  case Nil
  then show ?thesis by (simp add: dict_row_def csv_header_def)
next
  case (Cons y ys)
  show ?thesis
  proof (cases ys)
    case Nil
    with Cons show ?thesis by (simp add: dict_row_def csv_header_def)
  next
    case (Cons z zs)
    with \<open>xs = y # ys\<close> show ?thesis by (simp add: dict_row_def csv_header_def)
  qed
qed

lemma dict_row_no_key: "''timestamp'' \<notin> set hdr \<Longrightarrow> dict_row hdr row ''timestamp'' = None"
  by (auto simp: dict_row_def map_of_eq_None_iff dest: set_zip_leftD in_set_dropD)

lemma history_loop_no_key:
  "''timestamp'' \<notin> set hdr \<Longrightarrow> history_loop p c (map (dict_row hdr) rs) rows = Inr rows"
  by (induction rs arbitrary: rows) (simp_all add: dict_row_no_key)

lemma has_timestamp_Nil: "\<not> has_timestamp p []"
  by (simp add: has_timestamp_def)

lemma has_timestamp_Cons: "has_timestamp p (x # xs) = (p x \<noteq> None)"
  by (simp add: has_timestamp_def)

lemma history_loop_filter:
  "history_loop p c (map (dict_row csv_header) (filter (\<lambda>r. r \<noteq> []) rs)) rows =
   history_loop p c
     (map (dict_row csv_header) (filter (\<lambda>r. r \<noteq> []) (filter (has_timestamp p) rs))) rows"
proof (induction rs arbitrary: rows)
  case Nil
  show ?case by simp
next
  case (Cons r rs)
  show ?case
  proof (cases r)
    case Nil
    then show ?thesis by (simp add: has_timestamp_Nil Cons.IH)
  next
    case (Cons x xs)
    show ?thesis
    proof (cases "p x")
      case None
      with Cons show ?thesis
        by (simp add: has_timestamp_Cons dict_row_header_first Cons.IH)
    next
      case (Some dt)
      with Cons show ?thesis
        by (cases dt) (simp_all add: has_timestamp_Cons dict_row_header_first Cons.IH)
    qed
  qed
qed

lemma history_loop_returns:
  "\<forall>r\<in>set rs. \<not> aware_timestamp p r \<Longrightarrow>
     \<exists>out. history_loop p c (map (dict_row csv_header) (filter (\<lambda>r. r \<noteq> []) rs)) rows = Inr out"
proof (induction rs arbitrary: rows)
  case Nil
  show ?case by simp
next
  case (Cons r rs)
  from Cons.prems have rest: "\<forall>r\<in>set rs. \<not> aware_timestamp p r" by simp
  show ?case
  proof (cases r)
    case Nil
    then show ?thesis using Cons.IH[OF rest] by simp
  next
    case (Cons x xs)
    show ?thesis
    proof (cases "p x")
      case None
      with Cons show ?thesis using Cons.IH[OF rest] by (simp add: dict_row_header_first)
    next
      case (Some dt)
      show ?thesis
      proof (cases dt)
        case (Naive t)
        with Some Cons show ?thesis using Cons.IH[OF rest] by (simp add: dict_row_header_first)
      next
        case (Aware t off)
        with Some Cons Cons.prems show ?thesis by (simp add: aware_timestamp_def)
      qed
    qed
  qed
qed

text \<open>
  C10. In a reading log under the program's header, the records without a timestamp,
  those with no first field (a blank line) and those whose first field
  \<open>fromisoformat\<close> does not read, are skipped: the query answers as it does for the
  log without them, so the other records are in or out of the table as before. The query
  does not fail on them: for a window that gives a cutoff it answers 200 with a table
  whatever the records hold, unless one carries an aware datetime, and with the header
  alone when no record has a timestamp. Under a header that does not name the field
  \<open>timestamp\<close> every record lacks it, and the answer is the header alone.
\<close>

theorem history_skips_rows_without_timestamp:
  "sensors_history p hours_arg now (Some (csv_header # rows)) =
     sensors_history p hours_arg now (Some (csv_header # filter (has_timestamp p) rows))
   \<and> (timedelta_hours (case hours_arg of None \<Rightarrow> 24 | Some h \<Rightarrow> h) = Inr delta
        \<and> datetime_sub now delta = Inr cutoff \<longrightarrow>
        ((\<forall>r\<in>set rows. \<not> aware_timestamp p r) \<longrightarrow>
           (\<exists>b. sensors_history p hours_arg now (Some (csv_header # rows))
                  = Response 200 ''text/csv'' (Text b)))
        \<and> ((\<forall>r\<in>set rows. \<not> has_timestamp p r) \<longrightarrow>
             sensors_history p hours_arg now (Some (csv_header # rows)) = header_only)
        \<and> (''timestamp'' \<notin> set hdr \<longrightarrow>
             sensors_history p hours_arg now (Some (hdr # rows)) = header_only))"
proof (intro conjI impI)
  show "sensors_history p hours_arg now (Some (csv_header # rows)) =
     sensors_history p hours_arg now (Some (csv_header # filter (has_timestamp p) rows))"
    by (simp add: sensors_history_def DictReader_def history_loop_filter[of p _ rows "[]"]
        cong: sum.case_cong)
next
  assume ok: "timedelta_hours (case hours_arg of None \<Rightarrow> 24 | Some h \<Rightarrow> h) = Inr delta
        \<and> datetime_sub now delta = Inr cutoff"
    and na: "\<forall>r\<in>set rows. \<not> aware_timestamp p r"
  from history_loop_returns[OF na, of cutoff "[]"] obtain out where
    out: "history_loop p cutoff (map (dict_row csv_header) (filter (\<lambda>r. r \<noteq> []) rows)) [] = Inr out"
    by blast
  show "\<exists>b. sensors_history p hours_arg now (Some (csv_header # rows))
                  = Response 200 ''text/csv'' (Text b)"
    using ok out by (simp add: sensors_history_def DictReader_def header_only_def)
next
  assume ok: "timedelta_hours (case hours_arg of None \<Rightarrow> 24 | Some h \<Rightarrow> h) = Inr delta
        \<and> datetime_sub now delta = Inr cutoff"
    and none: "\<forall>r\<in>set rows. \<not> has_timestamp p r"
  from none have e: "filter (has_timestamp p) rows = []" by (simp add: filter_empty_conv)
  have "history_loop p cutoff (map (dict_row csv_header) (filter (\<lambda>r. r \<noteq> []) rows)) [] = Inr []"
    unfolding history_loop_filter[of p cutoff rows "[]"] e by simp
  then show "sensors_history p hours_arg now (Some (csv_header # rows)) = header_only"
    using ok by (simp add: sensors_history_def DictReader_def)
next
  assume ok: "timedelta_hours (case hours_arg of None \<Rightarrow> 24 | Some h \<Rightarrow> h) = Inr delta
        \<and> datetime_sub now delta = Inr cutoff"
    and nk: "''timestamp'' \<notin> set hdr"
  show "sensors_history p hours_arg now (Some (hdr # rows)) = header_only"
    using ok by (simp add: sensors_history_def DictReader_def history_loop_no_key[OF nk])
qed

theorem history_skips_rows_without_timestamp_witness:
  "timedelta_hours (case None of None \<Rightarrow> 24 | Some h \<Rightarrow> h) = Inr 86400000000
   \<and> datetime_sub now0 86400000000 = Inr 63902736000000000
   \<and> list_all (\<lambda>r. \<not> aware_timestamp fromisoformat0 r) rows0
   \<and> filter (has_timestamp fromisoformat0) rows0 = [[''2025-12-31T23:00:00'', ''7.0'', '''']]
   \<and> sensors_history fromisoformat0 None now0 (Some (csv_header # rows0)) =
       sensors_history fromisoformat0 None now0
         (Some [csv_header, [''2025-12-31T23:00:00'', ''7.0'', '''']])
   \<and> (\<exists>b. sensors_history fromisoformat0 None now0 (Some (csv_header # rows0))
            = Response 200 ''text/csv'' (Text b))
   \<and> sensors_history fromisoformat0 None now0 (Some (csv_header # rows0)) =
       Response 200 ''text/csv''
         (Text (''timestamp,ph,temp_c'' @ [newline] @ ''2025-12-31T23:00:00,7.0,'' @ [newline]))
   \<and> list_all (\<lambda>r. \<not> has_timestamp fromisoformat0 r) (tl rows0)
   \<and> sensors_history fromisoformat0 None now0 (Some (csv_header # tl rows0)) = header_only
   \<and> ''timestamp'' \<notin> set (hd rows0)
   \<and> sensors_history fromisoformat0 None now0 (Some rows0) = header_only"
proof -
  have a: "timedelta_hours (case None of None \<Rightarrow> 24 | Some h \<Rightarrow> h) = Inr 86400000000"
    by (simp add: timedelta_hours_def)
  have b: "datetime_sub now0 86400000000 = Inr 63902736000000000"
    by (simp add: datetime_sub_def now0_def MAXORDINAL_def)
  have na: "\<forall>r\<in>set rows0. \<not> aware_timestamp fromisoformat0 r"
    by (simp add: rows0_def aware_timestamp_def fromisoformat0_def)
  have f: "filter (has_timestamp fromisoformat0) rows0 = [[''2025-12-31T23:00:00'', ''7.0'', '''']]"
    by (simp add: rows0_def has_timestamp_def fromisoformat0_def)
  have nt: "\<forall>r\<in>set (tl rows0). \<not> has_timestamp fromisoformat0 r"
    by (simp add: rows0_def has_timestamp_def fromisoformat0_def)
  have nk: "''timestamp'' \<notin> set (hd rows0)"
    by (simp add: rows0_def)
  have r0: "rows0 = hd rows0 # tl rows0"
    by (simp add: rows0_def)
  note t1 = history_skips_rows_without_timestamp[of fromisoformat0 None now0 rows0 86400000000
      63902736000000000 "hd rows0"]
  note t2 = history_skips_rows_without_timestamp[of fromisoformat0 None now0 "tl rows0" 86400000000
      63902736000000000 "hd rows0"]
  have c1: "sensors_history fromisoformat0 None now0 (Some (csv_header # rows0)) =
       sensors_history fromisoformat0 None now0
         (Some [csv_header, [''2025-12-31T23:00:00'', ''7.0'', '''']])"
    using t1 by (simp only: f)
  have c2: "\<exists>b. sensors_history fromisoformat0 None now0 (Some (csv_header # rows0))
            = Response 200 ''text/csv'' (Text b)"
    using t1 a b na by blast
  have c3: "sensors_history fromisoformat0 None now0 (Some (csv_header # tl rows0)) = header_only"
    using t2 a b nt by blast
  have c4: "sensors_history fromisoformat0 None now0 (Some (hd rows0 # tl rows0)) = header_only"
    using t2 a b nk by blast
  have v: "sensors_history fromisoformat0 None now0
         (Some [csv_header, [''2025-12-31T23:00:00'', ''7.0'', '''']]) =
       Response 200 ''text/csv''
         (Text (''timestamp,ph,temp_c'' @ [newline] @ ''2025-12-31T23:00:00,7.0,'' @ [newline]))"
    by (simp add: sensors_history_def timedelta_hours_def datetime_sub_def now0_def MAXORDINAL_def
        DictReader_def dict_row_header_first fromisoformat0_def history_line_logged)
  from a b na f c1 c2 nt c3 nk c4 r0 v show ?thesis
    by (simp add: list_all_iff)
qed

section \<open>Receiving an alert\<close>

lemma text_lines_one: "line_feed \<notin> set s \<Longrightarrow> text_lines cur (s @ [line_feed]) = [cur @ s]"
  by (induction s arbitrary: cur) auto

lemma line_feed_not_in_separator: "line_feed \<notin> set (ascii '' | '')"
  by (simp add: ascii_def line_feed_def)

text \<open>
  C8, as the code has it. For a request whose JSON object gives the message \<open>m\<close>: when
  the log's encoding can encode the line, the answer is 200 with a body that repeats
  \<open>m\<close>, and the log after the call is the log before it followed by the timestamp, a
  separator, \<open>m\<close> and a line feed; when it cannot, the write raises, the request ends
  with that exception and the log holds what it held before. What is appended contains
  \<open>m\<close>, and it is exactly one line whenever the timestamp and \<open>m\<close> hold no line feed.
\<close>

theorem receive_alert_appends:
  "(encodable (ts @ ascii '' | '' @ m @ [line_feed]) \<longrightarrow>
      receive_alert encodable (Some (data(''message'' \<mapsto> m))) ts lg =
        (Response 200 ''application/json''
           (JsonText [(''status'', ascii ''received''), (''message'', m)]),
         Some ((case lg of None \<Rightarrow> [] | Some s \<Rightarrow> s) @ ts @ ascii '' | '' @ m @ [line_feed])))
   \<and> (\<not> encodable (ts @ ascii '' | '' @ m @ [line_feed]) \<longrightarrow>
      receive_alert encodable (Some (data(''message'' \<mapsto> m))) ts lg =
        (Unhandled UnicodeEncodeError, Some (case lg of None \<Rightarrow> [] | Some s \<Rightarrow> s)))
   \<and> (line_feed \<notin> set ts \<and> line_feed \<notin> set m \<longrightarrow>
        text_lines [] (ts @ ascii '' | '' @ m @ [line_feed]) = [ts @ ascii '' | '' @ m])
   \<and> sublist m (ts @ ascii '' | '' @ m)"
proof (intro conjI impI)
  assume "encodable (ts @ ascii '' | '' @ m @ [line_feed])"
  then show "receive_alert encodable (Some (data(''message'' \<mapsto> m))) ts lg =
        (Response 200 ''application/json''
           (JsonText [(''status'', ascii ''received''), (''message'', m)]),
         Some ((case lg of None \<Rightarrow> [] | Some s \<Rightarrow> s) @ ts @ ascii '' | '' @ m @ [line_feed]))"
    by (simp add: receive_alert_def)
next
  assume "\<not> encodable (ts @ ascii '' | '' @ m @ [line_feed])"
  then show "receive_alert encodable (Some (data(''message'' \<mapsto> m))) ts lg =
        (Unhandled UnicodeEncodeError, Some (case lg of None \<Rightarrow> [] | Some s \<Rightarrow> s))"
    by (simp add: receive_alert_def)
next
  assume "line_feed \<notin> set ts \<and> line_feed \<notin> set m"
  then have "line_feed \<notin> set (ts @ ascii '' | '' @ m)"
    using line_feed_not_in_separator by simp
  from text_lines_one[OF this, of "[]"]
  show "text_lines [] (ts @ ascii '' | '' @ m @ [line_feed]) = [ts @ ascii '' | '' @ m]"
    by simp
next
  show "sublist m (ts @ ascii '' | '' @ m)"
    by (metis append.assoc sublist_append_leftI)
qed

theorem receive_alert_appends_witness:
  "utf8_encodable (ascii ''2026-01-01T00:00:00'' @ ascii '' | '' @ ascii ''test'' @ [line_feed])
   \<and> line_feed \<notin> set (ascii ''2026-01-01T00:00:00'') \<and> line_feed \<notin> set (ascii ''test'')
   \<and> receive_alert utf8_encodable (Some [''message'' \<mapsto> ascii ''test''])
        (ascii ''2026-01-01T00:00:00'') (Some (ascii ''old'' @ [line_feed])) =
     (Response 200 ''application/json''
        (JsonText [(''status'', ascii ''received''), (''message'', ascii ''test'')]),
      Some (ascii ''old'' @ [line_feed] @ ascii ''2026-01-01T00:00:00'' @ ascii '' | ''
              @ ascii ''test'' @ [line_feed]))
   \<and> text_lines [] (ascii ''2026-01-01T00:00:00'' @ ascii '' | '' @ ascii ''test'' @ [line_feed])
       = [ascii ''2026-01-01T00:00:00'' @ ascii '' | '' @ ascii ''test'']
   \<and> \<not> utf8_encodable (ascii ''2026-01-01T00:00:00'' @ ascii '' | '' @ [0xD800] @ [line_feed])
   \<and> receive_alert utf8_encodable (Some [''message'' \<mapsto> [0xD800]])
        (ascii ''2026-01-01T00:00:00'') (Some (ascii ''old'' @ [line_feed])) =
     (Unhandled UnicodeEncodeError, Some (ascii ''old'' @ [line_feed]))"
proof -
  have e: "utf8_encodable (ascii ''2026-01-01T00:00:00'' @ ascii '' | '' @ ascii ''test'' @ [line_feed])"
    by (simp add: utf8_encodable_def ascii_def line_feed_def)
  have a: "line_feed \<notin> set (ascii ''2026-01-01T00:00:00'')"
    by (simp add: ascii_def line_feed_def)
  have b: "line_feed \<notin> set (ascii ''test'')"
    by (simp add: ascii_def line_feed_def)
  have n: "\<not> utf8_encodable (ascii ''2026-01-01T00:00:00'' @ ascii '' | '' @ [0xD800] @ [line_feed])"
    by (simp add: utf8_encodable_def)
  from receive_alert_appends[of utf8_encodable "ascii ''2026-01-01T00:00:00''" "ascii ''test''"
      Map.empty "Some (ascii ''old'' @ [line_feed])"]
    receive_alert_appends[of utf8_encodable "ascii ''2026-01-01T00:00:00''" "[0xD800]"
      Map.empty "Some (ascii ''old'' @ [line_feed])"] e a b n
  show ?thesis by simp
qed

text \<open>
  C8 as stated fails. For a message that holds a line feed, what is appended is two
  lines, and neither contains the message. For a message that is a lone surrogate, which
  UTF-8 cannot encode, the write raises: the request ends with the exception instead of
  the answer 200, and nothing is appended to the log.
\<close>

theorem receive_alert_not_one_line:
  "snd (receive_alert utf8_encodable (Some [''message'' \<mapsto> ascii ''a'' @ [line_feed] @ ascii ''b''])
          (ascii ''2026-01-01T00:00:00'') None)
     = Some (ascii ''2026-01-01T00:00:00 | a'' @ [line_feed] @ ascii ''b'' @ [line_feed])
   \<and> text_lines [] (ascii ''2026-01-01T00:00:00 | a'' @ [line_feed] @ ascii ''b'' @ [line_feed])
     = [ascii ''2026-01-01T00:00:00 | a'', ascii ''b'']
   \<and> \<not> sublist (ascii ''a'' @ [line_feed] @ ascii ''b'') (ascii ''2026-01-01T00:00:00 | a'')
   \<and> \<not> sublist (ascii ''a'' @ [line_feed] @ ascii ''b'') (ascii ''b'')
   \<and> receive_alert utf8_encodable (Some [''message'' \<mapsto> [0xD800]])
        (ascii ''2026-01-01T00:00:00'') (Some (ascii ''old'' @ [line_feed]))
     = (Unhandled UnicodeEncodeError, Some (ascii ''old'' @ [line_feed]))"
  by (simp add: receive_alert_def utf8_encodable_def ascii_def line_feed_def sublist_Cons_right)

end
